theory Spec2Isabelle
  imports Main "HOL-Library.Multiset"
begin

section \<open>The cluster command of llm-cluster\<close>

text \<open>
  An embedding of \<^verbatim>\<open>src/llm_cluster.py\<close>; line numbers refer to that file.
  The command reads the rows of one collection from an SQLite store, asks a clustering
  library for one label per row, groups the rows by label and prints the groups, with an
  optional title per group obtained from a language model. The store, the clustering
  library, the random sampler and the language model are collaborators outside the
  repository: they are fields of an environment record, and each of them may raise.
  Python strings are modelled as \<open>string\<close>, Python's unbounded integers as \<open>int\<close>,
  \<open>None\<close> as \<open>None\<close> of an option type.
\<close>

subsection \<open>Data model\<close>

text \<open>
  Exceptions. \<open>NotFoundError\<close> is the name the specification uses; no statement of the
  source raises it. The others come from the collaborators: \<open>OperationalError\<close> from
  SQLite, \<open>ValueError\<close> from the clustering library and from \<open>random.sample\<close>,
  \<open>OtherError\<close> for anything else a collaborator raises (decoding, model lookup, model
  invocation).
\<close>

datatype error = NotFoundError | OperationalError | ValueError | OtherError string

text \<open>
  A fetched row \<open>(row[0], llm.decode(row[1]), row[2])\<close>: the id (a TEXT column, so
  \<open>str(id)\<close> is the id itself), the decoded vector and the content, which may be NULL.
\<close>

type_synonym 'v row = "string \<times> 'v \<times> string option"

text \<open>An output item \<open>{"id": ..., "content": ...}\<close> and an output cluster \<open>{"id": k, "items": v}\<close>.\<close>

record item =
  item_id :: string
  item_content :: "string option"

record cluster_rec =
  cluster_id :: string
  cluster_items :: "item list"

text \<open>
  The two tables the query reads: \<open>collections (id, name)\<close> and
  \<open>embeddings (collection_id, id, embedding, content)\<close>, rows in the order the query
  returns them.
\<close>

record 'b tables =
  collections :: "(int \<times> string) list"
  embeddings :: "(int \<times> string \<times> 'b \<times> string option) list"

text \<open>The model object: the fields the command reads and the \<open>key\<close> it assigns.\<close>

record llm_model =
  model_name :: string
  needs_key :: "string option"
  key_env_var :: "string option"
  key :: "string option"

text \<open>The command's arguments and options, with click's names.\<close>

record args =
  arg_collection :: string
  arg_n :: int
  arg_truncate :: int
  arg_database :: "string option"
  arg_summary :: bool
  arg_model :: "string option"
  arg_prompt :: "string option"
  arg_sample_threshold :: int
  arg_sample :: int

text \<open>
  What one call of \<open>click.echo\<close> prints. The serialisation done by \<open>json.dumps\<close> and
  \<open>textwrap.indent\<close> is kept symbolic: each constructor stands for one formatted line
  of the source and carries the value that is serialised.
\<close>

datatype echo =
  EchoText string
  | EchoId string
  | EchoItems "item list"
  | EchoSummary "string option"
  | EchoDumps "cluster_rec list"

text \<open>
  The observable effects of a run: the lines printed so far and the invocations of the
  language model so far, each with its user text and its system prompt.
\<close>

record world =
  stdout :: "echo list"
  model_calls :: "(string \<times> string) list"

text \<open>
  The collaborators. \<open>database_at p\<close> is the store that \<open>sqlite_utils.Database(p)\<close>
  opens, \<open>None\<close> when it lacks the two tables (the query then raises
  \<open>OperationalError\<close>); \<open>fit n vs\<close> stands for lines 85 to 87 (\<open>np.array\<close>,
  \<open>MiniBatchKMeans(n_clusters=n).fit\<close>, \<open>labels_\<close>); \<open>randsample\<close> is
  \<open>random.sample\<close>; \<open>prompt_model m text system\<close> is
  \<open>m.prompt(text, system=system).text()\<close>.
\<close>

record ('b, 'v) env =
  user_dir :: string
  database_at :: "string \<Rightarrow> 'b tables option"
  decode :: "'b \<Rightarrow> error + 'v"
  fit :: "int \<Rightarrow> 'v list \<Rightarrow> error + int list"
  randsample :: "item list \<Rightarrow> int \<Rightarrow> error + item list"
  get_default_model :: string
  get_model :: "string \<Rightarrow> error + llm_model"
  get_key :: "string \<Rightarrow> string \<Rightarrow> string option \<Rightarrow> error + string option"
  prompt_model :: "llm_model \<Rightarrow> string \<Rightarrow> string \<Rightarrow> error + string"

subsection \<open>Python primitives\<close>

text \<open>Truthiness of an optional string: \<open>None\<close> and the empty string are false.\<close>

definition truthy :: "string option \<Rightarrow> bool" where
  "truthy x = (case x of None \<Rightarrow> False | Some s \<Rightarrow> s \<noteq> [])"

text \<open>\<open>a or b\<close> on an optional string and a default.\<close>

definition or_default :: "string option \<Rightarrow> string \<Rightarrow> string" where
  "or_default x d = (case x of None \<Rightarrow> d | Some s \<Rightarrow> if s = [] then d else s)"

text \<open>\<open>str\<close> of a non-negative and of any integer: the decimal digits, with a minus sign.\<close>

definition digit_char :: "nat \<Rightarrow> char" where
  "digit_char d = char_of (48 + d)"

fun str_nat :: "nat \<Rightarrow> string" where
  "str_nat n = (if n < 10 then [digit_char n] else str_nat (n div 10) @ [digit_char (n mod 10)])"

definition str_int :: "int \<Rightarrow> string" where
  "str_int i = (if i < 0 then CHR ''-'' # str_nat (nat (- i)) else str_nat (nat i))"

text \<open>\<open>sep.join(xs)\<close>.\<close>

fun py_join :: "string \<Rightarrow> string list \<Rightarrow> string" where
  "py_join sep [] = []"
| "py_join sep [x] = x"
| "py_join sep (x # y # ys) = x @ sep @ py_join sep (y # ys)"

text \<open>
  \<open>str.isspace\<close> on the code points below 256 and \<open>str.strip()\<close>: the whitespace code
  points are 9 to 13, 28 to 32, 133 and 160.
\<close>

definition py_isspace :: "char \<Rightarrow> bool" where
  "py_isspace c = ((of_char c :: nat) \<in> set [9, 10, 11, 12, 13, 28, 29, 30, 31, 32, 133, 160])"

definition py_strip :: "string \<Rightarrow> string" where
  "py_strip s = rev (dropWhile py_isspace (rev (dropWhile py_isspace s)))"

text \<open>
  \<open>int(a / 100)\<close> for an integer \<open>a\<close>: the true quotient cut towards zero (the float
  quotient is exact enough for this below \<open>2 ^ 53\<close>).
\<close>

definition int_div100 :: "int \<Rightarrow> int" where
  "int_div100 a = (if 0 \<le> a then a div 100 else - ((- a) div 100))"

subsection \<open>Reading the store (lines 69 to 84)\<close>

text \<open>The store's path: \<open>database\<close> when it is given and not empty, else the default.\<close>

definition db_path :: "('b, 'v) env \<Rightarrow> args \<Rightarrow> string" where
  "db_path e a = or_default (arg_database a) (user_dir e @ ''/embeddings.db'')"

text \<open>
  The scalar subquery \<open>select id from collections where name = ?\<close>: the id of the first
  row with that name, NULL when there is none.
\<close>

definition collection_id_of :: "'b tables \<Rightarrow> string \<Rightarrow> int option" where
  "collection_id_of t name =
     (case filter (\<lambda>(i, nm). nm = name) (collections t) of [] \<Rightarrow> None | (i, nm) # _ \<Rightarrow> Some i)"

text \<open>
  The outer query: the rows whose \<open>collection_id\<close> equals the subquery's value. A
  comparison with NULL holds for no row.
\<close>

definition select_rows :: "'b tables \<Rightarrow> string \<Rightarrow> (string \<times> 'b \<times> string option) list" where
  "select_rows t name =
     (case collection_id_of t name of
        None \<Rightarrow> []
      | Some cid \<Rightarrow> map snd (filter (\<lambda>(c, r). c = cid) (embeddings t)))"

text \<open>The list comprehension over the fetched rows; the first failing decode raises.\<close>

fun decode_rows :: "('b \<Rightarrow> error + 'v) \<Rightarrow> (string \<times> 'b \<times> string option) list \<Rightarrow> error + 'v row list" where
  "decode_rows dec [] = Inr []"
| "decode_rows dec ((i, b, c) # rs) =
     (case dec b of
        Inl err \<Rightarrow> Inl err
      | Inr v \<Rightarrow> (case decode_rows dec rs of Inl err \<Rightarrow> Inl err | Inr rows \<Rightarrow> Inr ((i, v, c) # rows)))"

definition read_rows :: "('b, 'v) env \<Rightarrow> args \<Rightarrow> error + 'v row list" where
  "read_rows e a =
     (case database_at e (db_path e a) of
        None \<Rightarrow> Inl OperationalError
      | Some t \<Rightarrow> decode_rows (decode e) (select_rows t (arg_collection a)))"

subsection \<open>Assembling the clusters (lines 89 to 104)\<close>

definition truncate_text :: "int \<Rightarrow> string option \<Rightarrow> string option" where
  "truncate_text trunc text =
     (if \<not> truthy text then None
      else if trunc > 0 then map_option (take (nat trunc)) text
      else text)"

definition make_item :: "int \<Rightarrow> 'v row \<Rightarrow> item" where
  "make_item trunc r =
     (case r of (i, v, content) \<Rightarrow> \<lparr>item_id = i, item_content = truncate_text trunc content\<rparr>)"

text \<open>
  \<open>clusters.setdefault(k, []).append(v)\<close> on a dict, which keeps its keys in insertion
  order: an association list with one entry per key.
\<close>

fun setdefault_append :: "(string \<times> 'a list) list \<Rightarrow> string \<Rightarrow> 'a \<Rightarrow> (string \<times> 'a list) list" where
  "setdefault_append [] k v = [(k, [v])]"
| "setdefault_append ((k', vs) # kvs) k v =
     (if k' = k then (k', vs @ [v]) # kvs else (k', vs) # setdefault_append kvs k v)"

text \<open>The loop of line 99 over \<open>zip(rows, assignments)\<close>.\<close>

fun group_loop :: "int \<Rightarrow> (string \<times> item list) list \<Rightarrow> ('v row \<times> int) list \<Rightarrow> (string \<times> item list) list" where
  "group_loop trunc clusters [] = clusters"
| "group_loop trunc clusters ((r, label) # ps) =
     group_loop trunc (setdefault_append clusters (str_int label) (make_item trunc r)) ps"

definition output_clusters :: "int \<Rightarrow> 'v row list \<Rightarrow> int list \<Rightarrow> cluster_rec list" where
  "output_clusters trunc rows assignments =
     map (\<lambda>(k, v). \<lparr>cluster_id = k, cluster_items = v\<rparr>) (group_loop trunc [] (zip rows assignments))"

subsection \<open>Generating the summaries (lines 107 to 142)\<close>

definition DEFAULT_SUMMARY_PROMPT :: string where
  "DEFAULT_SUMMARY_PROMPT = ''Short, concise title for this cluster of related documents.''"

definition click_echo :: "echo \<Rightarrow> world \<Rightarrow> world" where
  "click_echo x w = w\<lparr>stdout := stdout w @ [x]\<rparr>"

text \<open>Lines 108 to 110: the model is looked up, and given its key when it needs one.\<close>

definition load_model :: "('b, 'v) env \<Rightarrow> args \<Rightarrow> error + llm_model" where
  "load_model e a =
     (case get_model e (or_default (arg_model a) (get_default_model e)) of
        Inl err \<Rightarrow> Inl err
      | Inr m \<Rightarrow>
          (case needs_key m of
             None \<Rightarrow> Inr m
           | Some alias \<Rightarrow>
               if alias = [] then Inr m
               else (case get_key e [] alias (key_env_var m) of
                       Inl err \<Rightarrow> Inl err
                     | Inr k \<Rightarrow> Inr (m\<lparr>key := k\<rparr>))))"

text \<open>\<open>[item["content"] for item in items if item["content"]]\<close>.\<close>

definition contents_of :: "item list \<Rightarrow> string list" where
  "contents_of its =
     List.map_filter (\<lambda>it. if truthy (item_content it) then item_content it else None) its"

definition newline_join :: "string list \<Rightarrow> string" where
  "newline_join xs = py_join [CHR 0x0A] xs"

text \<open>\<open>int(len(cluster["items"]) * sample/100)\<close>, the size asked of the sampler.\<close>

definition sample_count :: "nat \<Rightarrow> int \<Rightarrow> int" where
  "sample_count m sample = int_div100 (int m * sample)"

text \<open>
  Lines 125 to 132: the text for one cluster, from the contents of its output items, or
  from those of a sample of them when it is longer than the threshold.
\<close>

definition prompt_text :: "('b, 'v) env \<Rightarrow> int \<Rightarrow> int \<Rightarrow> item list \<Rightarrow> error + string" where
  "prompt_text e sample_threshold sample its =
     (let prompt_content = newline_join (contents_of its) in
      if int (length prompt_content) > sample_threshold then
        (case randsample e its (sample_count (length its) sample) of
           Inl err \<Rightarrow> Inl err
         | Inr sampled_items \<Rightarrow> Inr (newline_join (contents_of sampled_items)))
      else Inr prompt_content)"

text \<open>Lines 133 to 139: the model is invoked only on a text that is not blank.\<close>

definition summarise :: "('b, 'v) env \<Rightarrow> llm_model \<Rightarrow> string \<Rightarrow> string \<Rightarrow> world \<Rightarrow> (error + string option) \<times> world" where
  "summarise e m system prompt_content w =
     (if py_strip prompt_content \<noteq> [] then
        (let w' = w\<lparr>model_calls := model_calls w @ [(prompt_content, system)]\<rparr> in
         case prompt_model e m prompt_content system of
           Inl err \<Rightarrow> (Inl err, w')
         | Inr t \<Rightarrow> (Inr (Some t), w'))
      else (Inr None, w))"

text \<open>One iteration of the loop of line 113.\<close>

definition summary_step :: "('b, 'v) env \<Rightarrow> llm_model \<Rightarrow> string \<Rightarrow> int \<Rightarrow> int \<Rightarrow> cluster_rec \<Rightarrow> bool \<Rightarrow> world \<Rightarrow> error option \<times> world" where
  "summary_step e m system sample_threshold sample c is_last w =
     (let w3 = click_echo (EchoItems (cluster_items c))
                 (click_echo (EchoId (cluster_id c)) (click_echo (EchoText ''  {'') w)) in
      case prompt_text e sample_threshold sample (cluster_items c) of
        Inl err \<Rightarrow> (Some err, w3)
      | Inr prompt_content \<Rightarrow>
          (case summarise e m system prompt_content w3 of
             (Inl err, w4) \<Rightarrow> (Some err, w4)
           | (Inr s, w4) \<Rightarrow>
               (None, click_echo (EchoText (''  }'' @ (if \<not> is_last then '','' else [])))
                        (click_echo (EchoSummary s) w4))))"

fun summary_loop :: "('b, 'v) env \<Rightarrow> llm_model \<Rightarrow> string \<Rightarrow> int \<Rightarrow> int \<Rightarrow> (cluster_rec \<times> bool) list \<Rightarrow> world \<Rightarrow> error option \<times> world" where
  "summary_loop e m system sample_threshold sample [] w = (None, w)"
| "summary_loop e m system sample_threshold sample ((c, is_last) # cs) w =
     (case summary_step e m system sample_threshold sample c is_last w of
        (Some err, w') \<Rightarrow> (Some err, w')
      | (None, w') \<Rightarrow> summary_loop e m system sample_threshold sample cs w')"

subsection \<open>The command (lines 52 to 144)\<close>

definition world0 :: world where
  "world0 = \<lparr>stdout = [], model_calls = []\<rparr>"

text \<open>Lines 107 to 144, once the clusters are assembled.\<close>

definition emit :: "('b, 'v) env \<Rightarrow> args \<Rightarrow> cluster_rec list \<Rightarrow> error option \<times> world" where
  "emit e a out =
     (if arg_summary a then
        (case load_model e a of
           Inl err \<Rightarrow> (Some err, world0)
         | Inr m \<Rightarrow>
             (case summary_loop e m (or_default (arg_prompt a) DEFAULT_SUMMARY_PROMPT)
                     (arg_sample_threshold a) (arg_sample a)
                     (zip out (replicate (length out - 1) False @ [True]))
                     (click_echo (EchoText ''['') world0) of
                (Some err, w) \<Rightarrow> (Some err, w)
              | (None, w) \<Rightarrow> (None, click_echo (EchoText '']'') w)))
      else (None, click_echo (EchoDumps out) world0))"

definition cluster :: "('b, 'v) env \<Rightarrow> args \<Rightarrow> error option \<times> world" where
  "cluster e a =
     (case read_rows e a of
        Inl err \<Rightarrow> (Some err, world0)
      | Inr rows \<Rightarrow>
          (case fit e (arg_n a) (map (\<lambda>r. fst (snd r)) rows) of
             Inl err \<Rightarrow> (Some err, world0)
           | Inr assignments \<Rightarrow> emit e a (output_clusters (arg_truncate a) rows assignments)))"

subsection \<open>Notions of the specification and of the libraries\<close>

text \<open>The distinct elements of a list, in the order of their first occurrence.\<close>

fun first_seen :: "'a list \<Rightarrow> 'a list" where
  "first_seen [] = []"
| "first_seen (x # xs) = x # filter (\<lambda>y. y \<noteq> x) (first_seen xs)"

text \<open>The rows that the clustering labelled \<open>k\<close>, in retrieval order.\<close>

definition rows_labelled :: "string \<Rightarrow> ('v row \<times> int) list \<Rightarrow> 'v row list" where
  "rows_labelled k ps = map fst (filter (\<lambda>(r, label). str_int label = k) ps)"

text \<open>The contents of rows as the store holds them, without the null and empty ones.\<close>

definition source_texts :: "'v row list \<Rightarrow> string list" where
  "source_texts rows =
     List.map_filter (\<lambda>r. if truthy (snd (snd r)) then snd (snd r) else None) rows"

text \<open>
  What \<open>truncate_text\<close> leaves of a content that is not empty: its first \<open>trunc\<close>
  characters when \<open>trunc\<close> is positive, all of it otherwise.
\<close>

definition cut_to :: "int \<Rightarrow> string \<Rightarrow> string" where
  "cut_to trunc s = (if 0 < trunc then take (nat trunc) s else s)"

text \<open>
  The specification's sample size \<open>round(item_count * sample/100)\<close>, with Python's
  rounding of a half to the even neighbour.
\<close>

definition round_div100 :: "int \<Rightarrow> int" where
  "round_div100 a =
     (let q = a div 100; r = a mod 100 in
      if 2 * r < 100 then q else if 2 * r > 100 then q + 1 else if even q then q else q + 1)"

definition spec_sample_count :: "nat \<Rightarrow> int \<Rightarrow> int" where
  "spec_sample_count m sample = round_div100 (int m * sample)"

text \<open>
  What \<open>random.sample(xs, k)\<close> promises: \<open>ValueError\<close> when \<open>k\<close> is negative or larger
  than the population, else \<open>k\<close> elements taken from \<open>xs\<close> without replacement.
\<close>

definition sample_contract :: "(item list \<Rightarrow> int \<Rightarrow> error + item list) \<Rightarrow> bool" where
  "sample_contract rs =
     (\<forall>xs k. if k < 0 \<or> int (length xs) < k then rs xs k = Inl ValueError
             else (\<exists>ys. rs xs k = Inr ys \<and> int (length ys) = k \<and> mset ys \<subseteq># mset xs))"

subsection \<open>A concrete store and concrete collaborators\<close>

text \<open>
  A store with one collection of four rows, a sampler that takes the first \<open>k\<close> items, a
  clustering stub that rejects an empty input and otherwise deals the labels
  \<open>1, 2, ..., 0, 1, ...\<close> modulo \<open>n\<close>, and a model stub that echoes its input.
\<close>

definition example_tables :: "unit tables" where
  "example_tables =
     \<lparr>collections = [(7, ''docs'')],
      embeddings = [(7, ''a'', (), Some ''abcdef''), (7, ''b'', (), None),
                    (7, ''c'', (), Some []), (7, ''d'', (), Some ''xy'')]\<rparr>"

definition take_sample :: "item list \<Rightarrow> int \<Rightarrow> error + item list" where
  "take_sample xs k = (if k < 0 \<or> int (length xs) < k then Inl ValueError else Inr (take (nat k) xs))"

definition example_env :: "(unit, unit) env" where
  "example_env =
     \<lparr>user_dir = ''/home/u'',
      database_at = (\<lambda>p. if p = ''/home/u/embeddings.db'' then Some example_tables else None),
      decode = Inr,
      fit = (\<lambda>n vs. if vs = [] \<or> n \<le> 0 then Inl ValueError
                     else Inr (map (\<lambda>i. (int i + 1) mod n) [0..<length vs])),
      randsample = take_sample,
      get_default_model = ''default'',
      get_model = (\<lambda>nm. Inr \<lparr>model_name = nm, needs_key = None, key_env_var = None, key = None\<rparr>),
      get_key = (\<lambda>explicit alias var. Inr None),
      prompt_model = (\<lambda>m text system. Inr text)\<rparr>"

definition example_args :: args where
  "example_args =
     \<lparr>arg_collection = ''docs'', arg_n = 3, arg_truncate = 3, arg_database = None,
      arg_summary = True, arg_model = None, arg_prompt = None,
      arg_sample_threshold = 30000, arg_sample = 80\<rparr>"

text \<open>The model that the stub \<open>get_model\<close> returns for the default name.\<close>

definition example_model :: llm_model where
  "example_model = \<lparr>model_name = ''default'', needs_key = None, key_env_var = None, key = None\<rparr>"

text \<open>The rows that the reader returns for the collection \<open>docs\<close>, and the labels dealt to them.\<close>

definition example_rows :: "unit row list" where
  "example_rows =
     [(''a'', (), Some ''abcdef''), (''b'', (), None), (''c'', (), Some []), (''d'', (), Some ''xy'')]"

definition example_labels :: "int list" where
  "example_labels = [1, 2, 0, 1]"

text \<open>The number that a string of decimal digits denotes: the inverse of \<open>str_nat\<close>.\<close>

definition digits_value :: "string \<Rightarrow> nat" where
  "digits_value s = foldl (\<lambda>a c. 10 * a + (of_char c - 48)) 0 s"

section \<open>Properties of the embedding\<close>

subsection \<open>Stringified labels\<close>

declare str_nat.simps [simp del]

lemma of_char_digit_char: "d < 10 \<Longrightarrow> (of_char (digit_char d) :: nat) = 48 + d"
  by (simp add: digit_char_def)

lemma digits_value_str_nat: "digits_value (str_nat n) = n"
proof (induction n rule: str_nat.induct)
  case (1 n)
  show ?case
  proof (cases "n < 10")
    case True
    then show ?thesis
      by (subst str_nat.simps) (simp add: digits_value_def of_char_digit_char)
  next
    case False
    then have "digits_value (str_nat (n div 10)) = n div 10" using 1 by simp
    then show ?thesis using False
      by (subst str_nat.simps) (simp add: digits_value_def of_char_digit_char)
  qed
qed

lemma str_nat_inj: "str_nat a = str_nat b \<Longrightarrow> a = b"
  by (metis digits_value_str_nat)

lemma str_nat_digits: "str_nat n \<noteq> [] \<and> CHR ''-'' \<notin> set (str_nat n)"
proof (induction n rule: str_nat.induct)
  case (1 n)
  have d: "CHR ''-'' \<noteq> digit_char d" if "d < 10" for d
  proof
    assume "CHR ''-'' = digit_char d"
    then have "(of_char (CHR ''-'') :: nat) = of_char (digit_char d)" by simp
    then show False using that by (simp add: of_char_digit_char)
  qed
  show ?case
  proof (cases "n < 10")
    case True
    then show ?thesis by (subst (1 2) str_nat.simps) (simp add: d)
  next
    case False
    then show ?thesis using 1 by (subst (1 2) str_nat.simps) (simp add: d)
  qed
qed

lemma str_int_inj: "str_int i = str_int j \<Longrightarrow> i = j"
proof -
  assume eq: "str_int i = str_int j"
  have no_minus: "CHR ''-'' # xs \<noteq> str_nat n" for xs n
    using str_nat_digits [of n] by (metis list.set_intros(1))
  consider "i < 0" "j < 0" | "i < 0" "0 \<le> j" | "0 \<le> i" "j < 0" | "0 \<le> i" "0 \<le> j"
    by linarith
  then show ?thesis
  proof cases
    case 1
    then have "str_nat (nat (- i)) = str_nat (nat (- j))" using eq by (simp add: str_int_def)
    then have "nat (- i) = nat (- j)" by (rule str_nat_inj)
    then show ?thesis using 1 by simp
  next
    case 2
    then show ?thesis using eq no_minus by (simp add: str_int_def)
  next
    case 3
    then show ?thesis using eq no_minus [of "str_nat (nat (- j))" "nat i"] by (simp add: str_int_def)
  next
    case 4
    then have "str_nat (nat i) = str_nat (nat j)" using eq by (simp add: str_int_def)
    then have "nat i = nat j" by (rule str_nat_inj)
    then show ?thesis using 4 by simp
  qed
qed

lemma first_seen_map_inj:
  assumes "\<And>x y. f x = f y \<Longrightarrow> x = y"
  shows "first_seen (map f xs) = map f (first_seen xs)"
proof (induction xs)
  case Nil
  then show ?case by simp
next
  case (Cons x xs)
  have "filter (\<lambda>y. y \<noteq> f x) (map f zs) = map f (filter (\<lambda>y. y \<noteq> x) zs)" for zs
    using assms by (induction zs) auto
  then show ?case using Cons by simp
qed

subsection \<open>The dictionary of clusters\<close>

lemma setdefault_append_keys:
  "map fst (setdefault_append kvs k v) =
     (if k \<in> set (map fst kvs) then map fst kvs else map fst kvs @ [k])"
  by (induction kvs k v rule: setdefault_append.induct) auto

lemma setdefault_append_mset:
  "mset (concat (map snd (setdefault_append kvs k v))) = mset (concat (map snd kvs)) + {#v#}"
  by (induction kvs k v rule: setdefault_append.induct) auto

lemma setdefault_append_distinct:
  "distinct (map fst kvs) \<Longrightarrow> distinct (map fst (setdefault_append kvs k v))"
  by (simp add: setdefault_append_keys)

lemma setdefault_append_map_of:
  "map_of (setdefault_append kvs k v) k' =
     (if k' = k then Some ((case map_of kvs k of None \<Rightarrow> [] | Some vs \<Rightarrow> vs) @ [v])
      else map_of kvs k')"
  by (induction kvs k v rule: setdefault_append.induct) auto

lemma first_seen_set: "set (first_seen xs) = set xs"
  by (induction xs) auto

lemma first_seen_distinct: "distinct (first_seen xs)"
  by (induction xs) (auto simp: first_seen_set)

lemma filter_first_seen_known:
  "k \<in> S \<Longrightarrow> filter (\<lambda>x. x \<notin> S) (filter (\<lambda>y. y \<noteq> k) xs) = filter (\<lambda>x. x \<notin> S) xs"
  by (induction xs) auto

lemma group_loop_keys:
  "map fst (group_loop t acc ps) =
     map fst acc @ filter (\<lambda>k. k \<notin> set (map fst acc)) (first_seen (map (\<lambda>p. str_int (snd p)) ps))"
proof (induction ps arbitrary: acc)
  case Nil
  then show ?case by simp
next
  case (Cons p ps)
  obtain r label where p: "p = (r, label)" by (cases p)
  let ?k = "str_int label"
  let ?acc' = "setdefault_append acc ?k (make_item t r)"
  let ?fs = "first_seen (map (\<lambda>p. str_int (snd p)) ps)"
  have step: "map fst (group_loop t acc (p # ps)) =
      map fst ?acc' @ filter (\<lambda>k. k \<notin> set (map fst ?acc')) ?fs"
    using Cons.IH [of ?acc'] by (simp add: p)
  show ?case
  proof (cases "?k \<in> set (map fst acc)")
    case True
    then have "map fst ?acc' = map fst acc" by (simp add: setdefault_append_keys)
    moreover have "filter (\<lambda>k. k \<notin> set (map fst acc)) (filter (\<lambda>y. y \<noteq> ?k) ?fs) =
        filter (\<lambda>k. k \<notin> set (map fst acc)) ?fs"
      using True by (rule filter_first_seen_known)
    ultimately show ?thesis using True step by (simp add: p)
  next
    case False
    then have keys: "map fst ?acc' = map fst acc @ [?k]" by (simp add: setdefault_append_keys)
    have "filter (\<lambda>k. k \<notin> set (map fst acc @ [?k])) ?fs =
        filter (\<lambda>k. k \<notin> set (map fst acc)) (filter (\<lambda>y. y \<noteq> ?k) ?fs)"
      by (induction ?fs) auto
    then show ?thesis using False step keys by (simp add: p)
  qed
qed

lemma group_loop_mset:
  "mset (concat (map snd (group_loop t acc ps))) =
     mset (concat (map snd acc)) + mset (map (\<lambda>p. make_item t (fst p)) ps)"
  by (induction ps arbitrary: acc) (auto simp: setdefault_append_mset)

lemma group_loop_distinct:
  "distinct (map fst acc) \<Longrightarrow> distinct (map fst (group_loop t acc ps))"
  by (induction ps arbitrary: acc) (auto simp: setdefault_append_distinct)

lemma group_loop_map_of:
  "map_of (group_loop t acc ps) k =
     (let new = map (make_item t) (rows_labelled k ps) in
      case map_of acc k of
        None \<Rightarrow> (if new = [] then None else Some new)
      | Some old \<Rightarrow> Some (old @ new))"
proof (induction ps arbitrary: acc)
  case Nil
  then show ?case by (simp add: rows_labelled_def split: option.splits)
next
  case (Cons p ps)
  obtain r label where p: "p = (r, label)" by (cases p)
  show ?case
    by (simp add: p Cons.IH setdefault_append_map_of rows_labelled_def Let_def split: option.splits)
qed

lemma map_snd_zip_length: "map snd (zip xs ys) = take (length xs) ys"
  by (induction xs ys rule: list_induct2') auto

lemma map_fst_zip_length: "map fst (zip xs ys) = take (length ys) xs"
  by (induction xs ys rule: list_induct2') auto

lemma output_ids:
  "map cluster_id (output_clusters t rows ls) = first_seen (map str_int (take (length rows) ls))"
proof -
  have "map cluster_id (output_clusters t rows ls) = map fst (group_loop t [] (zip rows ls))"
    by (simp add: output_clusters_def case_prod_beta comp_def)
  also have "\<dots> = first_seen (map (\<lambda>p. str_int (snd p)) (zip rows ls))"
    by (simp add: group_loop_keys)
  also have "map (\<lambda>p. str_int (snd p)) (zip rows ls) = map str_int (map snd (zip rows ls))"
    by simp
  also have "map snd (zip rows ls) = take (length rows) ls"
    by (rule map_snd_zip_length)
  finally show ?thesis .
qed

lemma output_distinct: "distinct (map cluster_id (output_clusters t rows ls))"
  by (simp add: output_ids first_seen_distinct)

lemma output_items:
  assumes "c \<in> set (output_clusters t rows ls)"
  shows "cluster_items c = map (make_item t) (rows_labelled (cluster_id c) (zip rows ls))"
    and "cluster_items c \<noteq> []"
proof -
  let ?g = "group_loop t [] (zip rows ls)"
  from assms obtain k v where kv: "(k, v) \<in> set ?g" and c: "c = \<lparr>cluster_id = k, cluster_items = v\<rparr>"
    by (auto simp: output_clusters_def)
  have "distinct (map fst ?g)" by (simp add: group_loop_distinct)
  with kv have "map_of ?g k = Some v" by simp
  then have v: "map (make_item t) (rows_labelled k (zip rows ls)) = v \<and> v \<noteq> []"
    by (auto simp: group_loop_map_of Let_def split: if_splits)
  show "cluster_items c = map (make_item t) (rows_labelled (cluster_id c) (zip rows ls))"
    using v c by simp
  show "cluster_items c \<noteq> []" using v c by simp
qed

lemma output_mset:
  "mset (concat (map cluster_items (output_clusters t rows ls))) =
     mset (map (make_item t) (take (length ls) rows))"
proof -
  have "map cluster_items (output_clusters t rows ls) = map snd (group_loop t [] (zip rows ls))"
    by (simp add: output_clusters_def case_prod_beta comp_def)
  then have "mset (concat (map cluster_items (output_clusters t rows ls))) =
      mset (map (\<lambda>p. make_item t (fst p)) (zip rows ls))"
    by (simp add: group_loop_mset)
  also have "map (\<lambda>p. make_item t (fst p)) (zip rows ls) = map (make_item t) (map fst (zip rows ls))"
    by simp
  also have "map fst (zip rows ls) = take (length ls) rows"
    by (rule map_fst_zip_length)
  finally show ?thesis .
qed

subsection \<open>Truncation\<close>

lemma make_item_id: "item_id (make_item t r) = fst r"
  by (cases r) (simp add: make_item_def)

lemma truncate_text_zero: "truncate_text 0 c = (if c = Some [] then None else c)"
  by (cases c) (auto simp: truncate_text_def truthy_def)

lemma truncate_text_pos:
  "0 < k \<Longrightarrow> truncate_text k c =
     (case c of None \<Rightarrow> None | Some s \<Rightarrow> if s = [] then None else Some (take (nat k) s))"
  by (cases c) (auto simp: truncate_text_def truthy_def)

lemma truncate_text_neg: "k < 0 \<Longrightarrow> truncate_text k c = truncate_text 0 c"
  by (simp add: truncate_text_def)

subsection \<open>The reader\<close>

text \<open>The reader raises only what SQLite or the decoder raises.\<close>

lemma decode_rows_errors: "decode_rows dec rs = Inl err \<Longrightarrow> \<exists>b. dec b = Inl err"
proof (induction rs)
  case Nil
  then show ?case by simp
next
  case (Cons r rs)
  obtain i b c where r: "r = (i, b, c)" by (cases r)
  show ?case
  proof (cases "dec b")
    case (Inl err')
    then show ?thesis using Cons.prems by (auto simp: r)
  next
    case (Inr v)
    then have "decode_rows dec rs = Inl err"
      using Cons.prems by (auto simp: r split: sum.splits)
    then show ?thesis by (rule Cons.IH)
  qed
qed

lemma read_rows_errors:
  "read_rows e a = Inl err \<Longrightarrow> err = OperationalError \<or> (\<exists>b. decode e b = Inl err)"
  by (auto simp: read_rows_def split: option.splits dest: decode_rows_errors)

subsection \<open>The text for a cluster\<close>

lemma contents_of_Nil: "contents_of [] = []"
  by (simp add: contents_of_def map_filter_simps)

lemma contents_of_Cons:
  "contents_of (it # its) =
     (if truthy (item_content it) then the (item_content it) # contents_of its else contents_of its)"
  by (auto simp: contents_of_def map_filter_simps truthy_def split: option.splits)

lemma source_texts_Nil: "source_texts [] = []"
  by (simp add: source_texts_def map_filter_simps)

lemma source_texts_Cons:
  "source_texts (r # rs) =
     (if truthy (snd (snd r)) then the (snd (snd r)) # source_texts rs else source_texts rs)"
  by (auto simp: source_texts_def map_filter_simps truthy_def split: option.splits)

lemma truthy_truncate_text: "truthy (truncate_text t c) = truthy c"
  by (cases c) (auto simp: truncate_text_def truthy_def)

lemma the_truncate_text:
  "truthy c \<Longrightarrow> the (truncate_text t c) = (if 0 < t then take (nat t) (the c) else the c)"
  by (cases c) (auto simp: truncate_text_def truthy_def)

lemma truncate_text_cut_to: "s \<noteq> [] \<Longrightarrow> truncate_text t (Some s) = Some (cut_to t s)"
  by (simp add: truncate_text_def truthy_def cut_to_def)

lemma contents_of_make_item:
  "contents_of (map (make_item t) rs) = map (cut_to t) (source_texts rs)"
proof (induction rs)
  case Nil
  then show ?case by (simp add: contents_of_Nil source_texts_Nil)
next
  case (Cons r rs)
  have "item_content (make_item t r) = truncate_text t (snd (snd r))"
    by (cases r) (simp add: make_item_def)
  then show ?case
    using Cons
    by (simp add: contents_of_Cons source_texts_Cons truthy_truncate_text the_truncate_text cut_to_def)
qed

lemma contents_of_all_falsy:
  "\<forall>it \<in> set its. \<not> truthy (item_content it) \<Longrightarrow> contents_of its = []"
  by (induction its) (simp_all add: contents_of_Nil contents_of_Cons)

lemma list_of_image:
  "set ys \<subseteq> f ` A \<Longrightarrow> \<exists>zs. ys = map f zs \<and> set zs \<subseteq> A"
proof (induction ys)
  case Nil
  then show ?case by simp
next
  case (Cons y ys)
  then obtain zs where zs: "ys = map f zs" "set zs \<subseteq> A" by auto
  from Cons.prems obtain z where "z \<in> A" "y = f z" by auto
  then have "y # ys = map f (z # zs) \<and> set (z # zs) \<subseteq> A" using zs by simp
  then show ?case by (intro exI [of _ "z # zs"])
qed

subsection \<open>The sample size\<close>

lemma sample_count_floor:
  assumes "0 \<le> sample"
  shows "0 \<le> sample_count m sample"
    and "100 * sample_count m sample \<le> int m * sample"
    and "int m * sample < 100 * (sample_count m sample + 1)"
proof -
  have nn: "0 \<le> int m * sample" using assms by simp
  then have eq: "sample_count m sample = (int m * sample) div 100"
    by (simp add: sample_count_def int_div100_def)
  show "0 \<le> sample_count m sample" using nn by (simp add: eq)
  show "100 * sample_count m sample \<le> int m * sample" unfolding eq by presburger
  show "int m * sample < 100 * (sample_count m sample + 1)" unfolding eq by presburger
qed

lemma sample_count_le:
  assumes "0 \<le> sample" and "sample \<le> 100"
  shows "sample_count m sample \<le> int m"
proof -
  have "int m * sample \<le> int m * 100" using assms by (simp add: mult_left_mono)
  moreover have "100 * sample_count m sample \<le> int m * sample"
    using assms(1) by (rule sample_count_floor)
  ultimately show ?thesis by linarith
qed

lemma sample_contractD:
  assumes "sample_contract rs" and "0 \<le> k" and "k \<le> int (length xs)"
  shows "\<exists>ys. rs xs k = Inr ys \<and> int (length ys) = k \<and> mset ys \<subseteq># mset xs"
proof -
  have "\<not> (k < 0 \<or> int (length xs) < k)" using assms(2,3) by simp
  then show ?thesis using assms(1) unfolding sample_contract_def by metis
qed

lemma take_sample_contract: "sample_contract take_sample"
  unfolding sample_contract_def
proof (intro allI)
  fix xs :: "item list" and k :: int
  show "if k < 0 \<or> int (length xs) < k then take_sample xs k = Inl ValueError
        else \<exists>ys. take_sample xs k = Inr ys \<and> int (length ys) = k \<and> mset ys \<subseteq># mset xs"
  proof (cases "k < 0 \<or> int (length xs) < k")
    case True
    then show ?thesis by (simp add: take_sample_def)
  next
    case False
    have "mset (take (nat k) xs) \<subseteq># mset xs"
      by (metis append_take_drop_id mset_append mset_subset_eq_add_left)
    moreover have "int (length (take (nat k) xs)) = k" using False by (simp add: min_def) arith
    ultimately show ?thesis using False by (simp add: take_sample_def del: length_take)
  qed
qed

subsection \<open>Blank text\<close>

lemma py_strip_blank: "\<forall>ch \<in> set pc. py_isspace ch \<Longrightarrow> py_strip pc = []"
proof -
  assume "\<forall>ch \<in> set pc. py_isspace ch"
  then have blank: "dropWhile py_isspace pc = []" by simp
  show ?thesis unfolding py_strip_def blank by simp
qed

lemma py_strip_not_blank: "\<exists>ch \<in> set pc. \<not> py_isspace ch \<Longrightarrow> py_strip pc \<noteq> []"
proof -
  assume "\<exists>ch \<in> set pc. \<not> py_isspace ch"
  then have "dropWhile py_isspace pc \<noteq> []" by simp
  then obtain y ys where d: "dropWhile py_isspace pc = y # ys" by (cases "dropWhile py_isspace pc") auto
  then have "\<not> py_isspace y" by (metis hd_dropWhile list.sel(1) list.distinct(1))
  then have "\<exists>ch \<in> set (rev (y # ys)). \<not> py_isspace ch" by auto
  then have "dropWhile py_isspace (rev (y # ys)) \<noteq> []" by (simp only: dropWhile_eq_Nil_conv) blast
  then show ?thesis by (simp add: py_strip_def d)
qed

lemma summarise_blank:
  "\<forall>ch \<in> set pc. py_isspace ch \<Longrightarrow> summarise e m sys pc w = (Inr None, w)"
  by (simp add: summarise_def py_strip_blank)

lemma summary_step_blank:
  assumes "prompt_text e thr smp (cluster_items c) = Inr pc"
    and "\<forall>ch \<in> set pc. py_isspace ch"
  shows "summary_step e m sys thr smp c is_last w =
           (None, w\<lparr>stdout := stdout w @
              [EchoText ''  {'', EchoId (cluster_id c), EchoItems (cluster_items c),
               EchoSummary None, EchoText (''  }'' @ (if \<not> is_last then '','' else []))]\<rparr>)"
  using assms by (simp add: summary_step_def summarise_blank click_echo_def)


subsection \<open>The invocations of the model in a run\<close>

lemma summarise_calls:
  assumes "summarise e m sys pc w = (r, w')"
  shows "model_calls w' = model_calls w \<or> model_calls w' = model_calls w @ [(pc, sys)]"
  using assms by (auto simp: summarise_def Let_def split: if_splits sum.splits)

lemma summary_step_calls:
  assumes "summary_step e m sys thr smp c is_last w = (r, w')"
  shows "model_calls w' = model_calls w
         \<or> (\<exists>pc. prompt_text e thr smp (cluster_items c) = Inr pc
                  \<and> model_calls w' = model_calls w @ [(pc, sys)])"
proof (cases "prompt_text e thr smp (cluster_items c)")
  case (Inl err)
  then show ?thesis using assms by (auto simp: summary_step_def click_echo_def)
next
  case (Inr pc)
  let ?w3 = "click_echo (EchoItems (cluster_items c))
               (click_echo (EchoId (cluster_id c)) (click_echo (EchoText ''  {'') w))"
  obtain s w4 where sm: "summarise e m sys pc ?w3 = (s, w4)" by (cases "summarise e m sys pc ?w3")
  have w3: "model_calls ?w3 = model_calls w" by (simp add: click_echo_def)
  have "model_calls w' = model_calls w4"
    using assms Inr sm by (auto simp: summary_step_def click_echo_def split: sum.splits)
  then show ?thesis using summarise_calls [OF sm] Inr w3 by auto
qed

lemma summary_loop_calls:
  assumes "summary_loop e m sys thr smp cs w = (r, w')"
    and "x \<in> set (model_calls w')"
  shows "x \<in> set (model_calls w)
         \<or> (\<exists>c pc. c \<in> fst ` set cs \<and> prompt_text e thr smp (cluster_items c) = Inr pc \<and> x = (pc, sys))"
  using assms
proof (induction cs arbitrary: w)
  case Nil
  then show ?case by simp
next
  case (Cons p cs)
  obtain c is_last where p: "p = (c, is_last)" by (cases p)
  obtain r1 w1 where st: "summary_step e m sys thr smp c is_last w = (r1, w1)"
    by (cases "summary_step e m sys thr smp c is_last w")
  have first: "y \<in> set (model_calls w1) \<Longrightarrow>
      y \<in> set (model_calls w) \<or> (\<exists>pc. prompt_text e thr smp (cluster_items c) = Inr pc \<and> y = (pc, sys))" for y
    using summary_step_calls [OF st] by auto
  show ?case
  proof (cases r1)
    case (Some err)
    then have "w' = w1" using Cons.prems(1) st by (simp add: p)
    then show ?thesis using first [of x] Cons.prems(2) by (auto simp: p)
  next
    case None
    then have "summary_loop e m sys thr smp cs w1 = (r, w')" using Cons.prems(1) st by (simp add: p)
    from Cons.IH [OF this Cons.prems(2)] show ?thesis using first [of x] by (auto simp: p)
  qed
qed

lemma emit_calls:
  assumes "x \<in> set (model_calls (snd (emit e a out)))"
  shows "arg_summary a \<and> (\<exists>c pc. c \<in> set out
           \<and> prompt_text e (arg_sample_threshold a) (arg_sample a) (cluster_items c) = Inr pc
           \<and> fst x = pc)"
proof (cases "arg_summary a")
  case False
  then show ?thesis using assms by (simp add: emit_def click_echo_def world0_def)
next
  case True
  show ?thesis
  proof (cases "load_model e a")
    case (Inl err)
    then show ?thesis using assms True by (simp add: emit_def world0_def)
  next
    case (Inr m)
    let ?cs = "zip out (replicate (length out - 1) False @ [True])"
    let ?w = "click_echo (EchoText ''['') world0"
    let ?sys = "or_default (arg_prompt a) DEFAULT_SUMMARY_PROMPT"
    obtain r w' where lp: "summary_loop e m ?sys (arg_sample_threshold a) (arg_sample a) ?cs ?w = (r, w')"
      by (cases "summary_loop e m ?sys (arg_sample_threshold a) (arg_sample a) ?cs ?w")
    have "model_calls (snd (emit e a out)) = model_calls w'"
      using True Inr lp by (cases r) (simp_all add: emit_def click_echo_def)
    then have x: "x \<in> set (model_calls w')" using assms by simp
    have "model_calls ?w = []" by (simp add: click_echo_def world0_def)
    then obtain c pc where
      c: "c \<in> fst ` set ?cs"
      and t: "prompt_text e (arg_sample_threshold a) (arg_sample a) (cluster_items c) = Inr pc"
      and xe: "x = (pc, ?sys)"
      using summary_loop_calls [OF lp x] by auto
    from c have "c \<in> set out" by (auto dest: set_zip_leftD)
    then show ?thesis using True t xe by auto
  qed
qed

lemma cluster_calls:
  assumes "x \<in> set (model_calls (snd (cluster e a)))"
  shows "\<exists>rows ls c pc. read_rows e a = Inr rows
           \<and> fit e (arg_n a) (map (\<lambda>r. fst (snd r)) rows) = Inr ls
           \<and> c \<in> set (output_clusters (arg_truncate a) rows ls)
           \<and> prompt_text e (arg_sample_threshold a) (arg_sample a) (cluster_items c) = Inr pc
           \<and> fst x = pc \<and> arg_summary a"
proof (cases "read_rows e a")
  case (Inl err)
  then show ?thesis using assms by (simp add: cluster_def world0_def)
next
  case rows: (Inr rows)
  show ?thesis
  proof (cases "fit e (arg_n a) (map (\<lambda>r. fst (snd r)) rows)")
    case (Inl err)
    then show ?thesis using assms rows by (simp add: cluster_def world0_def)
  next
    case (Inr ls)
    then have "cluster e a = emit e a (output_clusters (arg_truncate a) rows ls)"
      using rows by (simp add: cluster_def)
    then show ?thesis using emit_calls [of x e a "output_clusters (arg_truncate a) rows ls"] assms rows Inr
      by auto
  qed
qed

lemma prompt_text_sources:
  assumes "prompt_text e thr smp (map f rs) = Inr pc"
    and "sample_contract (randsample e)"
  shows "\<exists>ys. set ys \<subseteq> set rs \<and> pc = newline_join (contents_of (map f ys))
              \<and> (\<not> thr < int (length (newline_join (contents_of (map f rs)))) \<longrightarrow> ys = rs)"
proof (cases "thr < int (length (newline_join (contents_of (map f rs))))")
  case False
  then have "pc = newline_join (contents_of (map f rs))"
    using assms(1) by (simp add: prompt_text_def)
  then show ?thesis using False by auto
next
  case True
  let ?k = "sample_count (length (map f rs)) smp"
  from True assms(1) obtain sampled where
    s: "randsample e (map f rs) ?k = Inr sampled" and pc: "pc = newline_join (contents_of sampled)"
    by (auto simp: prompt_text_def Let_def split: sum.splits)
  have "\<not> (?k < 0 \<or> int (length (map f rs)) < ?k)"
    using assms(2) s unfolding sample_contract_def by (metis Inl_Inr_False)
  then have "\<exists>ys. randsample e (map f rs) ?k = Inr ys \<and> int (length ys) = ?k \<and> mset ys \<subseteq># mset (map f rs)"
    using assms(2) unfolding sample_contract_def by metis
  then have "mset sampled \<subseteq># mset (map f rs)" using s by auto
  then have "set sampled \<subseteq> f ` set rs" by (metis set_mset_mono set_mset_mset set_map)
  then obtain ys where "sampled = map f ys" "set ys \<subseteq> set rs" using list_of_image by blast
  then show ?thesis using pc True by auto
qed

section \<open>The claims\<close>

subsection \<open>C1: every item lands in exactly one cluster\<close>

text \<open>
  Claim C1. In every run whose clustering returns one label per row, the clusters that
  the run prints are \<open>output_clusters\<close> of the rows read, and the ids of the items of
  all these clusters, counted with multiplicity, are exactly the ids of the rows read
  from the store: no row is lost and none is repeated. The clusters have pairwise
  different ids, so an item stands in one cluster only.
\<close>

theorem C1_items_partitioned:
  assumes "read_rows e a = Inr rows"
    and "fit e (arg_n a) (map (\<lambda>r. fst (snd r)) rows) = Inr assignments"
    and "length assignments = length rows"
  shows "cluster e a = emit e a (output_clusters (arg_truncate a) rows assignments)
         \<and> mset (map item_id (concat (map cluster_items (output_clusters (arg_truncate a) rows assignments))))
             = mset (map fst rows)
         \<and> distinct (map cluster_id (output_clusters (arg_truncate a) rows assignments))"
proof -
  let ?out = "output_clusters (arg_truncate a) rows assignments"
  have run: "cluster e a = emit e a ?out"
    using assms(1,2) by (simp add: cluster_def)
  have items: "mset (concat (map cluster_items ?out)) = mset (map (make_item (arg_truncate a)) rows)"
    using assms(3) by (simp add: output_mset)
  have "mset (map item_id (concat (map cluster_items ?out))) =
      image_mset item_id (mset (concat (map cluster_items ?out)))"
    by simp
  also have "\<dots> = image_mset item_id (mset (map (make_item (arg_truncate a)) rows))"
    by (simp only: items)
  also have "\<dots> = mset (map fst rows)"
    by (simp add: multiset.map_comp comp_def make_item_id)
  finally show ?thesis using run by (simp add: output_distinct)
qed

text \<open>The four example rows with the labels 1, 2, 0, 1.\<close>

theorem C1_items_partitioned_witness:
  "read_rows example_env example_args = Inr example_rows
   \<and> fit example_env (arg_n example_args) (map (\<lambda>r. fst (snd r)) example_rows) = Inr example_labels
   \<and> length example_labels = length example_rows
   \<and> cluster example_env example_args
       = emit example_env example_args (output_clusters (arg_truncate example_args) example_rows example_labels)
   \<and> mset (map item_id (concat (map cluster_items
         (output_clusters (arg_truncate example_args) example_rows example_labels))))
       = mset (map fst example_rows)
   \<and> distinct (map cluster_id (output_clusters (arg_truncate example_args) example_rows example_labels))"
proof -
  have a: "read_rows example_env example_args = Inr example_rows" by code_simp
  have b: "fit example_env (arg_n example_args) (map (\<lambda>r. fst (snd r)) example_rows) = Inr example_labels"
    by code_simp
  have c: "length example_labels = length example_rows"
    by (simp add: example_labels_def example_rows_def)
  from C1_items_partitioned [OF a b c] a b c show ?thesis by simp
qed

subsection \<open>C2: the text sent to the model\<close>

text \<open>
  Claim C2 as stated fails: the text for a cluster is joined from the contents of the
  output items, which \<open>truncate_text\<close> has already cut. With \<open>truncate = 3\<close> the model
  receives \<open>abc\<close> and \<open>xy\<close> for the cluster of the rows \<open>a\<close> and \<open>d\<close>, while the
  full source contents are \<open>abcdef\<close> and \<open>xy\<close>.
\<close>

theorem C2_counterexample:
  "map fst (model_calls (snd (cluster example_env example_args))) = [''abc'' @ [CHR 0x0A] @ ''xy'']
   \<and> newline_join (source_texts (rows_labelled ''1'' (zip example_rows example_labels)))
       = ''abcdef'' @ [CHR 0x0A] @ ''xy''
   \<and> map fst (model_calls (snd (cluster example_env example_args)))
       \<noteq> [newline_join (source_texts (rows_labelled ''1'' (zip example_rows example_labels)))]"
  by code_simp

text \<open>The example run reads the example rows and labels them with the example labels.\<close>

lemma example_read_rows:
  "read_rows example_env example_args = Inr example_rows
   \<and> fit example_env (arg_n example_args) (map (\<lambda>r. fst (snd r)) example_rows) = Inr example_labels"
  by code_simp

text \<open>
  Claim C2, amended. When \<open>--summary\<close> is given, every text sent to the language model
  is built from the contents of output items, that is from source contents after
  truncation: it is the newline-joined list of the non-empty contents of rows of one
  cluster (all of them in the direct step, those of the sampled items in the sampling
  step), each cut to its first \<open>truncate\<close> characters when \<open>truncate > 0\<close>. Only for
  \<open>truncate \<le> 0\<close> is it built from the full source content. When the text of all the
  cluster's rows is not longer than \<open>sample_threshold\<close>, it is that text.
\<close>

theorem C2_summary_input:
  assumes "sample_contract (randsample e)"
    and "x \<in> set (model_calls (snd (cluster e a)))"
  shows "\<exists>rows ls k ys.
           read_rows e a = Inr rows
           \<and> fit e (arg_n a) (map (\<lambda>r. fst (snd r)) rows) = Inr ls
           \<and> set ys \<subseteq> set (rows_labelled k (zip rows ls))
           \<and> fst x = newline_join (map (cut_to (arg_truncate a)) (source_texts ys))
           \<and> (\<not> arg_sample_threshold a
                   < int (length (newline_join (map (cut_to (arg_truncate a))
                                   (source_texts (rows_labelled k (zip rows ls))))))
                \<longrightarrow> ys = rows_labelled k (zip rows ls))"
proof -
  from cluster_calls [OF assms(2)] obtain rows ls c pc where
    rows: "read_rows e a = Inr rows"
    and ls: "fit e (arg_n a) (map (\<lambda>r. fst (snd r)) rows) = Inr ls"
    and c: "c \<in> set (output_clusters (arg_truncate a) rows ls)"
    and pc: "prompt_text e (arg_sample_threshold a) (arg_sample a) (cluster_items c) = Inr pc"
    and x: "fst x = pc"
    by blast
  let ?rs = "rows_labelled (cluster_id c) (zip rows ls)"
  have "cluster_items c = map (make_item (arg_truncate a)) ?rs"
    using c by (rule output_items(1))
  with pc have "prompt_text e (arg_sample_threshold a) (arg_sample a)
      (map (make_item (arg_truncate a)) ?rs) = Inr pc" by simp
  from prompt_text_sources [OF this assms(1)] obtain ys where
    ys: "set ys \<subseteq> set ?rs"
    and t: "pc = newline_join (contents_of (map (make_item (arg_truncate a)) ys))"
    and d: "\<not> arg_sample_threshold a
              < int (length (newline_join (contents_of (map (make_item (arg_truncate a)) ?rs))))
            \<longrightarrow> ys = ?rs"
    by blast
  have "fst x = newline_join (map (cut_to (arg_truncate a)) (source_texts ys))"
    using x t by (simp add: contents_of_make_item)
  moreover have "\<not> arg_sample_threshold a
        < int (length (newline_join (map (cut_to (arg_truncate a)) (source_texts ?rs))))
      \<longrightarrow> ys = ?rs"
    using d by (simp add: contents_of_make_item)
  ultimately show ?thesis using rows ls ys by blast
qed

text \<open>The one invocation of the example run.\<close>

theorem C2_summary_input_witness:
  "sample_contract (randsample example_env)
   \<and> (''abc'' @ [CHR 0x0A] @ ''xy'', DEFAULT_SUMMARY_PROMPT)
         \<in> set (model_calls (snd (cluster example_env example_args)))
   \<and> (\<exists>rows ls k ys.
           read_rows example_env example_args = Inr rows
           \<and> fit example_env (arg_n example_args) (map (\<lambda>r. fst (snd r)) rows) = Inr ls
           \<and> set ys \<subseteq> set (rows_labelled k (zip rows ls))
           \<and> ''abc'' @ [CHR 0x0A] @ ''xy''
               = newline_join (map (cut_to (arg_truncate example_args)) (source_texts ys))
           \<and> (\<not> arg_sample_threshold example_args
                   < int (length (newline_join (map (cut_to (arg_truncate example_args))
                                   (source_texts (rows_labelled k (zip rows ls))))))
                \<longrightarrow> ys = rows_labelled k (zip rows ls)))"
proof -
  have a: "sample_contract (randsample example_env)"
    by (simp add: example_env_def take_sample_contract)
  have b: "(''abc'' @ [CHR 0x0A] @ ''xy'', DEFAULT_SUMMARY_PROMPT)
      \<in> set (model_calls (snd (cluster example_env example_args)))"
    by code_simp
  from C2_summary_input [OF a b] a b show ?thesis by simp
qed

subsection \<open>C3: a collection that does not exist\<close>

text \<open>
  Claim C3 as stated fails: the query selects no row for a name that is not in
  \<open>collections\<close> and raises nothing, so the run goes on to the clustering call. With a
  clustering that rejects an empty input the run ends with that library's
  \<open>ValueError\<close>, not with \<open>NotFoundError\<close>.
\<close>

theorem C3_counterexample:
  "cluster example_env (example_args\<lparr>arg_collection := ''missing''\<rparr>) = (Some ValueError, world0)
   \<and> fst (cluster example_env (example_args\<lparr>arg_collection := ''missing''\<rparr>)) \<noteq> Some NotFoundError"
  by code_simp

text \<open>
  Claim C3, amended. When the given collection name does not exist in the store, the
  reader returns no rows and raises no error; the clustering is then called on an empty
  list of vectors, and when it raises, the run fails with the clustering's error and no
  JSON is emitted. Were the clustering to return, the run would print an empty list of
  clusters.
\<close>

theorem C3_missing_collection:
  assumes "database_at e (db_path e a) = Some t"
    and "arg_collection a \<notin> snd ` set (collections t)"
  shows "read_rows e a = Inr []
         \<and> cluster e a = (case fit e (arg_n a) [] of
                             Inl err \<Rightarrow> (Some err, \<lparr>stdout = [], model_calls = []\<rparr>)
                           | Inr ls \<Rightarrow> emit e a [])"
proof -
  have "filter (\<lambda>(i, nm). nm = arg_collection a) (collections t) = []"
    using assms(2) by (force simp: filter_empty_conv)
  then have "select_rows t (arg_collection a) = []"
    by (simp add: select_rows_def collection_id_of_def)
  then have r: "read_rows e a = Inr []" using assms(1) by (simp add: read_rows_def)
  have oc: "output_clusters (arg_truncate a) [] ls = []" for ls
    by (simp add: output_clusters_def)
  show ?thesis using r by (simp add: oc cluster_def world0_def split: sum.splits)
qed

text \<open>The example store has no collection named \<open>missing\<close>.\<close>

theorem C3_missing_collection_witness:
  "database_at example_env (db_path example_env (example_args\<lparr>arg_collection := ''missing''\<rparr>)) = Some example_tables
   \<and> ''missing'' \<notin> snd ` set (collections example_tables)
   \<and> read_rows example_env (example_args\<lparr>arg_collection := ''missing''\<rparr>) = Inr []
   \<and> cluster example_env (example_args\<lparr>arg_collection := ''missing''\<rparr>)
       = (Some ValueError, \<lparr>stdout = [], model_calls = []\<rparr>)"
proof -
  let ?a = "example_args\<lparr>arg_collection := ''missing''\<rparr>"
  have a: "database_at example_env (db_path example_env ?a) = Some example_tables"
    by (simp add: example_env_def example_args_def db_path_def or_default_def)
  have b: "arg_collection ?a \<notin> snd ` set (collections example_tables)"
    by (simp add: example_tables_def)
  have f: "fit example_env (arg_n ?a) [] = Inl ValueError" by (simp add: example_env_def)
  from C3_missing_collection [OF a b] a b f show ?thesis by simp
qed

subsection \<open>C4: truncate = 0\<close>

text \<open>
  Claim C4 as stated fails on a row whose content is the empty string: with
  \<open>truncate = 0\<close> the output item's content is null, not the empty string, because
  \<open>truncate_text\<close> returns \<open>None\<close> for every falsy text.
\<close>

theorem C4_counterexample:
  "map item_content (concat (map cluster_items (output_clusters 0 [(''c'', (), Some [])] [0])))
     \<noteq> map (\<lambda>r. snd (snd r)) [(''c'', (), Some [])]"
  by code_simp

text \<open>
  Claim C4, amended. When \<open>truncate = 0\<close>, the content of every output item equals its
  source content exactly, except that an empty source content becomes null; null content
  stays null. The output items are the rows with their content mapped in this way.
\<close>

theorem C4_truncate_zero:
  assumes "length assignments = length rows"
  shows "truncate_text 0 content = (if content = Some [] then None else content)
         \<and> mset (concat (map cluster_items (output_clusters 0 rows assignments)))
             = mset (map (\<lambda>r. \<lparr>item_id = fst r,
                                 item_content = (if snd (snd r) = Some [] then None else snd (snd r))\<rparr>) rows)"
proof -
  have "make_item 0 = (\<lambda>r :: 'a row. \<lparr>item_id = fst r,
      item_content = (if snd (snd r) = Some [] then None else snd (snd r))\<rparr>)"
    by (rule ext) (simp add: make_item_def truncate_text_zero split: prod.splits)
  then show ?thesis
    using assms output_mset [of 0 rows assignments] by (simp add: truncate_text_zero)
qed

text \<open>The example rows with \<open>truncate = 0\<close>.\<close>

theorem C4_truncate_zero_witness:
  "length example_labels = length example_rows
   \<and> truncate_text 0 (Some ''abcdef'') = (if Some ''abcdef'' = Some [] then None else Some ''abcdef'')
   \<and> mset (concat (map cluster_items (output_clusters 0 example_rows example_labels)))
       = mset (map (\<lambda>r. \<lparr>item_id = fst r,
                           item_content = (if snd (snd r) = Some [] then None else snd (snd r))\<rparr>) example_rows)"
  using C4_truncate_zero [of example_labels example_rows "Some ''abcdef''"]
  by (simp add: example_labels_def example_rows_def)

subsection \<open>C5: truncate = k > 0\<close>

text \<open>
  Claim C5 as stated fails on a row whose content is the empty string: with
  \<open>truncate = 5\<close> the output item's content is null, while the first five characters of
  the source content are the empty string.
\<close>

theorem C5_counterexample:
  "map item_content (concat (map cluster_items (output_clusters 5 [(''c'', (), Some [])] [0])))
     \<noteq> map (\<lambda>r. map_option (take 5) (snd (snd r))) [(''c'', (), Some [])]"
  by code_simp

text \<open>
  Claim C5, amended. When \<open>truncate = k > 0\<close>, the content of every output item is null
  when its source content is null or empty, and otherwise the first \<open>k\<close> characters of
  the source content; a content that is not null has length at most \<open>k\<close>. The output
  items are the rows with their content mapped by \<open>truncate_text k\<close>.
\<close>

theorem C5_truncate_positive:
  assumes "0 < k" and "length assignments = length rows"
  shows "truncate_text k content =
           (case content of None \<Rightarrow> None
            | Some s \<Rightarrow> if s = [] then None else Some (take (nat k) s))
         \<and> (case truncate_text k content of None \<Rightarrow> True | Some s \<Rightarrow> int (length s) \<le> k)
         \<and> mset (concat (map cluster_items (output_clusters k rows assignments)))
             = mset (map (\<lambda>r. \<lparr>item_id = fst r, item_content = truncate_text k (snd (snd r))\<rparr>) rows)"
proof -
  have a: "truncate_text k content =
      (case content of None \<Rightarrow> None | Some s \<Rightarrow> if s = [] then None else Some (take (nat k) s))"
    using assms(1) by (rule truncate_text_pos)
  have b: "(case truncate_text k content of None \<Rightarrow> True | Some s \<Rightarrow> int (length s) \<le> k)"
    using assms(1) by (auto simp: a split: option.splits)
  have "make_item k =
      (\<lambda>r :: 'a row. \<lparr>item_id = fst r, item_content = truncate_text k (snd (snd r))\<rparr>)"
    by (rule ext) (simp add: make_item_def split: prod.splits)
  then have c: "mset (concat (map cluster_items (output_clusters k rows assignments)))
      = mset (map (\<lambda>r. \<lparr>item_id = fst r, item_content = truncate_text k (snd (snd r))\<rparr>) rows)"
    using assms(2) output_mset [of k rows assignments] by simp
  from a b c show ?thesis by simp
qed

text \<open>The example rows with \<open>truncate = 3\<close>.\<close>

theorem C5_truncate_positive_witness:
  "(0::int) < 3 \<and> length example_labels = length example_rows
   \<and> truncate_text 3 (Some ''abcdef'') = Some ''abc''
   \<and> mset (concat (map cluster_items (output_clusters 3 example_rows example_labels)))
       = mset (map (\<lambda>r. \<lparr>item_id = fst r, item_content = truncate_text 3 (snd (snd r))\<rparr>) example_rows)"
  using C5_truncate_positive [of 3 example_labels example_rows "Some ''abcdef''"]
  by (simp add: example_labels_def example_rows_def)

subsection \<open>C6: the size of the sample\<close>

text \<open>
  Claim C6 as stated fails: the size asked of the sampler is
  \<open>int(item_count * sample / 100)\<close>, which cuts the quotient, where the claim rounds it.
  For two items and \<open>sample = 80\<close> the quotient is 1.6: one item is drawn, and
  \<open>round\<close> gives two.
\<close>

theorem C6_counterexample:
  "sample_count 2 80 = 1 \<and> spec_sample_count 2 80 = 2
   \<and> prompt_text example_env 3 80
        [\<lparr>item_id = ''a'', item_content = Some ''abcdef''\<rparr>, \<lparr>item_id = ''d'', item_content = Some ''xy''\<rparr>]
       = Inr ''abcdef''"
  by code_simp

text \<open>
  Claim C6, amended. When a cluster's concatenated content is longer than
  \<open>sample_threshold\<close> and \<open>0 \<le> sample \<le> 100\<close>, the number of items drawn equals
  \<open>int(item_count * sample / 100)\<close>, the quotient rounded down, and the items are a
  sample without replacement of the cluster's items, drawn by \<open>random.sample\<close>; the
  text is rebuilt from them.
\<close>

theorem C6_sample_size:
  assumes "sample_contract (randsample e)"
    and "0 \<le> sample" and "sample \<le> 100"
    and "sample_threshold < int (length (newline_join (contents_of its)))"
  shows "\<exists>sampled_items.
           randsample e its (sample_count (length its) sample) = Inr sampled_items
           \<and> prompt_text e sample_threshold sample its = Inr (newline_join (contents_of sampled_items))
           \<and> int (length sampled_items) = sample_count (length its) sample
           \<and> mset sampled_items \<subseteq># mset its
           \<and> 100 * sample_count (length its) sample \<le> int (length its) * sample
           \<and> int (length its) * sample < 100 * (sample_count (length its) sample + 1)"
proof -
  let ?k = "sample_count (length its) sample"
  have "0 \<le> ?k" using assms(2) by (rule sample_count_floor)
  moreover have "?k \<le> int (length its)" using assms(2,3) by (rule sample_count_le)
  ultimately obtain ys where
    ys: "randsample e its ?k = Inr ys" "int (length ys) = ?k" "mset ys \<subseteq># mset its"
    using sample_contractD [OF assms(1)] by blast
  have "prompt_text e sample_threshold sample its = Inr (newline_join (contents_of ys))"
    using assms(4) ys(1) by (simp add: prompt_text_def)
  moreover have "100 * ?k \<le> int (length its) * sample"
    using assms(2) by (rule sample_count_floor)
  moreover have "int (length its) * sample < 100 * (?k + 1)"
    using assms(2) by (rule sample_count_floor)
  ultimately show ?thesis using ys by blast
qed

text \<open>Four items and \<open>sample = 80\<close>: three items are drawn.\<close>

theorem C6_sample_size_witness:
  "sample_contract (randsample example_env) \<and> (0::int) \<le> 80 \<and> (80::int) \<le> 100
   \<and> 3 < int (length (newline_join (contents_of (map (make_item 0) example_rows))))
   \<and> (\<exists>sampled_items.
           randsample example_env (map (make_item 0) example_rows)
             (sample_count (length (map (make_item 0) example_rows)) 80) = Inr sampled_items
           \<and> prompt_text example_env 3 80 (map (make_item 0) example_rows)
               = Inr (newline_join (contents_of sampled_items))
           \<and> int (length sampled_items) = sample_count (length (map (make_item 0) example_rows)) 80
           \<and> mset sampled_items \<subseteq># mset (map (make_item 0) example_rows)
           \<and> 100 * sample_count (length (map (make_item 0) example_rows)) 80
               \<le> int (length (map (make_item 0) example_rows)) * 80
           \<and> int (length (map (make_item 0) example_rows)) * 80
               < 100 * (sample_count (length (map (make_item 0) example_rows)) 80 + 1))"
proof -
  have a: "sample_contract (randsample example_env)"
    by (simp add: example_env_def take_sample_contract)
  have b: "3 < int (length (newline_join (contents_of (map (make_item 0) example_rows))))"
    by code_simp
  from C6_sample_size [OF a _ _ b, of 80] a b show ?thesis by simp
qed

subsection \<open>C7: no invocation on a blank text\<close>

text \<open>
  Claim C7. If the text assembled for a cluster is empty or consists of whitespace only,
  the iteration for that cluster prints a null summary and leaves the list of model
  invocations as it was. When every item of the cluster has null content, the assembled
  text is empty: always when \<open>sample_threshold\<close> is not negative, and whenever the
  assembly returns a text at all.
\<close>

theorem C7_blank_text_no_call:
  "(prompt_text e sample_threshold sample (cluster_items c) = Inr pc \<and> (\<forall>ch \<in> set pc. py_isspace ch)
      \<longrightarrow> summary_step e m system sample_threshold sample c is_last w =
            (None, w\<lparr>stdout := stdout w @
               [EchoText ''  {'', EchoId (cluster_id c), EchoItems (cluster_items c),
                EchoSummary None, EchoText (''  }'' @ (if \<not> is_last then '','' else []))]\<rparr>))
   \<and> ((\<forall>it \<in> set (cluster_items c). item_content it = None) \<and> 0 \<le> sample_threshold
      \<longrightarrow> prompt_text e sample_threshold sample (cluster_items c) = Inr [])
   \<and> ((\<forall>it \<in> set (cluster_items c). item_content it = None) \<and> sample_contract (randsample e)
       \<and> prompt_text e sample_threshold sample (cluster_items c) = Inr pc
      \<longrightarrow> pc = [])"
proof (intro conjI impI)
  assume "prompt_text e sample_threshold sample (cluster_items c) = Inr pc \<and> (\<forall>ch \<in> set pc. py_isspace ch)"
  then show "summary_step e m system sample_threshold sample c is_last w =
      (None, w\<lparr>stdout := stdout w @
         [EchoText ''  {'', EchoId (cluster_id c), EchoItems (cluster_items c),
          EchoSummary None, EchoText (''  }'' @ (if \<not> is_last then '','' else []))]\<rparr>)"
    by (simp add: summary_step_blank)
next
  assume h: "(\<forall>it \<in> set (cluster_items c). item_content it = None) \<and> 0 \<le> sample_threshold"
  then have "contents_of (cluster_items c) = []"
    by (intro contents_of_all_falsy) (simp add: truthy_def)
  then show "prompt_text e sample_threshold sample (cluster_items c) = Inr []"
    using h by (simp add: prompt_text_def newline_join_def)
next
  assume h: "(\<forall>it \<in> set (cluster_items c). item_content it = None) \<and> sample_contract (randsample e)
       \<and> prompt_text e sample_threshold sample (cluster_items c) = Inr pc"
  then have "prompt_text e sample_threshold sample (map (\<lambda>it. it) (cluster_items c)) = Inr pc" by simp
  from prompt_text_sources [OF this] h obtain ys where
    ys: "set ys \<subseteq> set (cluster_items c)" "pc = newline_join (contents_of (map (\<lambda>it. it) ys))"
    by blast
  have "contents_of ys = []"
    using h ys(1) by (intro contents_of_all_falsy) (auto simp: truthy_def)
  then show "pc = []" using ys(2) by (simp add: newline_join_def)
qed

text \<open>The cluster of the example run whose only item has null content.\<close>

theorem C7_blank_text_no_call_witness:
  "prompt_text example_env 30000 80 [\<lparr>item_id = ''b'', item_content = None\<rparr>] = Inr []
   \<and> map item_content [\<lparr>item_id = ''b'', item_content = None\<rparr>] = [None]
   \<and> sample_contract (randsample example_env)
   \<and> summary_step example_env example_model DEFAULT_SUMMARY_PROMPT 30000 80
       \<lparr>cluster_id = ''2'', cluster_items = [\<lparr>item_id = ''b'', item_content = None\<rparr>]\<rparr> False world0 =
     (None, world0\<lparr>stdout := stdout world0 @
        [EchoText ''  {'', EchoId ''2'', EchoItems [\<lparr>item_id = ''b'', item_content = None\<rparr>],
         EchoSummary None, EchoText ''  },'']\<rparr>)"
proof -
  have a: "sample_contract (randsample example_env)"
    by (simp add: example_env_def take_sample_contract)
  from C7_blank_text_no_call [of example_env 30000 80
      "\<lparr>cluster_id = ''2'', cluster_items = [\<lparr>item_id = ''b'', item_content = None\<rparr>]\<rparr>" "[]"
      example_model DEFAULT_SUMMARY_PROMPT False world0] a
  show ?thesis by simp
qed

subsection \<open>C8: the order of clusters and of their items\<close>

text \<open>
  Claim C8. The output clusters are emitted in the order in which their labels are first
  met while scanning the items in retrieval order, not in the numeric order of the
  labels; the items of each cluster are the rows with that label, in retrieval order.
\<close>

theorem C8_cluster_order:
  "map cluster_id (output_clusters t rows assignments)
     = map str_int (first_seen (take (length rows) assignments))
   \<and> (\<forall>c \<in> set (output_clusters t rows assignments).
        cluster_items c = map (make_item t) (rows_labelled (cluster_id c) (zip rows assignments)))"
proof -
  have "map cluster_id (output_clusters t rows assignments)
      = first_seen (map str_int (take (length rows) assignments))"
    by (rule output_ids)
  also have "\<dots> = map str_int (first_seen (take (length rows) assignments))"
    by (rule first_seen_map_inj) (rule str_int_inj)
  finally show ?thesis by (simp add: output_items(1))
qed

text \<open>The labels 1, 2, 0, 1 give the clusters 1, 2, 0, which is not the numeric order.\<close>

theorem C8_cluster_order_witness:
  "map cluster_id (output_clusters 3 example_rows example_labels) = [''1'', ''2'', ''0'']
   \<and> map (map item_id \<circ> cluster_items) (output_clusters 3 example_rows example_labels)
       = [[''a'', ''d''], [''b''], [''c'']]"
proof -
  have "map cluster_id (output_clusters 3 example_rows example_labels)
      = map str_int (first_seen (take (length example_rows) example_labels))"
    using C8_cluster_order [of 3 example_rows example_labels] by simp
  also have "\<dots> = [''1'', ''2'', ''0'']" by code_simp
  finally have a: "map cluster_id (output_clusters 3 example_rows example_labels) = [''1'', ''2'', ''0'']" .
  have b: "map (map item_id \<circ> cluster_items) (output_clusters 3 example_rows example_labels)
       = [[''a'', ''d''], [''b''], [''c'']]" by code_simp
  from a b show ?thesis by simp
qed

subsection \<open>C9: negative truncate\<close>

text \<open>
  Claim C9. For every negative \<open>truncate\<close>, content that is not empty passes through
  unmodified, exactly as for \<open>truncate = 0\<close>: \<open>truncate_text\<close> agrees with its value at 0
  on every content, and so do the assembled clusters.
\<close>

theorem C9_negative_truncate:
  assumes "k < 0"
  shows "(s \<noteq> [] \<longrightarrow> truncate_text k (Some s) = Some s)
         \<and> truncate_text k content = truncate_text 0 content
         \<and> output_clusters k rows assignments = output_clusters 0 rows assignments"
proof -
  have t: "truncate_text k c = truncate_text 0 c" for c
    using assms by (rule truncate_text_neg)
  have m: "make_item k r = make_item 0 r" for r :: "'a row"
    by (cases r) (simp add: make_item_def t)
  have "group_loop k acc ps = group_loop 0 acc ps" for acc and ps :: "('a row \<times> int) list"
    by (induction ps arbitrary: acc) (auto simp: m)
  then have "output_clusters k rows assignments = output_clusters 0 rows assignments"
    by (simp add: output_clusters_def)
  moreover have "s \<noteq> [] \<longrightarrow> truncate_text k (Some s) = Some s"
    by (simp add: t truncate_text_zero)
  ultimately show ?thesis by (simp add: t)
qed

text \<open>The example rows with \<open>truncate = -2\<close>.\<close>

theorem C9_negative_truncate_witness:
  "(-2::int) < 0
   \<and> truncate_text (-2) (Some ''abcdef'') = Some ''abcdef''
   \<and> truncate_text (-2) (Some ''abcdef'') = truncate_text 0 (Some ''abcdef'')
   \<and> output_clusters (-2) example_rows example_labels = output_clusters 0 example_rows example_labels"
  using C9_negative_truncate [of "-2" "''abcdef''" "Some ''abcdef''" example_rows example_labels]
  by (auto simp: truncate_text_zero)

subsection \<open>C10: a sample of zero items\<close>

text \<open>
  Claim C10. If a cluster's concatenated content is longer than \<open>sample_threshold\<close>
  and \<open>int(item_count * sample / 100)\<close> is 0, the sampler is asked for zero items, the
  rebuilt text is empty, and the iteration prints a null summary without invoking the
  model, although the cluster has content.
\<close>

theorem C10_empty_sample:
  assumes "sample_threshold < int (length (newline_join (contents_of (cluster_items c))))"
    and "sample_count (length (cluster_items c)) sample = 0"
    and "sample_contract (randsample e)"
  shows "randsample e (cluster_items c) (sample_count (length (cluster_items c)) sample) = Inr []
         \<and> prompt_text e sample_threshold sample (cluster_items c) = Inr []
         \<and> summary_step e m system sample_threshold sample c is_last w =
             (None, w\<lparr>stdout := stdout w @
                [EchoText ''  {'', EchoId (cluster_id c), EchoItems (cluster_items c),
                 EchoSummary None, EchoText (''  }'' @ (if \<not> is_last then '','' else []))]\<rparr>)"
proof -
  obtain ys where "randsample e (cluster_items c) 0 = Inr ys" "int (length ys) = 0"
    using sample_contractD [OF assms(3), of 0 "cluster_items c"] by auto
  then have s: "randsample e (cluster_items c) 0 = Inr []" by simp
  then have p: "prompt_text e sample_threshold sample (cluster_items c) = Inr []"
    using assms(1,2) by (simp add: prompt_text_def contents_of_Nil newline_join_def)
  have "summary_step e m system sample_threshold sample c is_last w =
      (None, w\<lparr>stdout := stdout w @
         [EchoText ''  {'', EchoId (cluster_id c), EchoItems (cluster_items c),
          EchoSummary None, EchoText (''  }'' @ (if \<not> is_last then '','' else []))]\<rparr>)"
    using p by (rule summary_step_blank) simp
  then show ?thesis using s p assms(2) by simp
qed

text \<open>One item with content, \<open>sample_threshold = 3\<close> and \<open>sample = 80\<close>.\<close>

theorem C10_empty_sample_witness:
  "3 < int (length (newline_join (contents_of [\<lparr>item_id = ''a'', item_content = Some ''abcdef''\<rparr>])))
   \<and> sample_count (length [\<lparr>item_id = ''a'', item_content = Some ''abcdef''\<rparr>]) 80 = 0
   \<and> sample_contract (randsample example_env)
   \<and> prompt_text example_env 3 80 [\<lparr>item_id = ''a'', item_content = Some ''abcdef''\<rparr>] = Inr []
   \<and> summary_step example_env example_model DEFAULT_SUMMARY_PROMPT 3 80
        \<lparr>cluster_id = ''1'', cluster_items = [\<lparr>item_id = ''a'', item_content = Some ''abcdef''\<rparr>]\<rparr> True world0 =
       (None, world0\<lparr>stdout := stdout world0 @
          [EchoText ''  {'', EchoId ''1'', EchoItems [\<lparr>item_id = ''a'', item_content = Some ''abcdef''\<rparr>],
           EchoSummary None, EchoText ''  }'']\<rparr>)"
proof -
  let ?c = "\<lparr>cluster_id = ''1'', cluster_items = [\<lparr>item_id = ''a'', item_content = Some ''abcdef''\<rparr>]\<rparr>"
  have a: "3 < int (length (newline_join (contents_of (cluster_items ?c))))" by code_simp
  have b: "sample_count (length (cluster_items ?c)) 80 = 0" by code_simp
  have c: "sample_contract (randsample example_env)"
    by (simp add: example_env_def take_sample_contract)
  from C10_empty_sample [OF a b c, of example_model DEFAULT_SUMMARY_PROMPT True world0] a b c
  show ?thesis by simp
qed

end
